theory Spec2Isabelle
  imports Main
begin

section \<open>JavaScript values\<close>

text \<open>
  The payload files are read with \<^verbatim>\<open>JSON.parse\<close>, so every value the ingest script
  walks over is a JSON value; reading a property that is not there gives
  \<^verbatim>\<open>undefined\<close>, which is a value of its own here. An object is the list of its
  own properties as \<^verbatim>\<open>JSON.parse\<close> left them (one binding for each key).
  A string is the list of the bytes of its UTF-8 encoding. A number is an integer of the
  safe range, below \<open>2^53\<close> in absolute value, where \<^verbatim>\<open>JSON.parse\<close> and
  \<^verbatim>\<open>String\<close> are exact; the type has no other number. \<open>safe_num k\<close> is the
  number \<open>k\<close> of that range (and 0 for any other \<open>k\<close>).
\<close>

typedef safe_int = "{n :: int. \<bar>n\<bar> < 9007199254740992}"
  morphisms int_of_safe safe_of_int
  by (rule exI [of _ 0]) simp

setup_lifting type_definition_safe_int

lift_definition safe_num :: "int \<Rightarrow> safe_int" is
  "\<lambda>k. if \<bar>k\<bar> < 9007199254740992 then k else 0"
  by simp

instantiation safe_int :: equal
begin

lift_definition equal_safe_int :: "safe_int \<Rightarrow> safe_int \<Rightarrow> bool" is "\<lambda>a b. a = b" .

instance
  by standard (transfer, simp)

end

datatype jsval =
    JUndefined
  | JNull
  | JBool bool
  | JNum safe_int
  | JStr string
  | JArr "jsval list"
  | JObj "(string \<times> jsval) list"

definition nullish :: "jsval \<Rightarrow> bool" where
  "nullish v \<longleftrightarrow> v = JUndefined \<or> v = JNull"

text \<open>Truthiness, as \<^verbatim>\<open>||\<close>, \<^verbatim>\<open>!\<close> and \<^verbatim>\<open>? :\<close> test it.\<close>

fun truthy :: "jsval \<Rightarrow> bool" where
  "truthy JUndefined = False"
| "truthy JNull = False"
| "truthy (JBool b) = b"
| "truthy (JNum n) = (int_of_safe n \<noteq> 0)"
| "truthy (JStr s) = (s \<noteq> [])"
| "truthy (JArr xs) = True"
| "truthy (JObj kvs) = True"

definition js_or :: "jsval \<Rightarrow> jsval \<Rightarrow> jsval" where
  "js_or a b = (if truthy a then a else b)"

text \<open>
  \<^verbatim>\<open>v.k\<close> for a value \<open>v\<close> that is neither \<^verbatim>\<open>null\<close> nor \<^verbatim>\<open>undefined\<close>
  (on those the access throws, which every caller below tests before it reads).
  None of the property names the program reads is a built-in property of a string, a
  number, a boolean or an array, so on those the result is \<^verbatim>\<open>undefined\<close>.
\<close>

fun get_prop :: "jsval \<Rightarrow> string \<Rightarrow> jsval" where
  "get_prop (JObj kvs) k = (case map_of kvs k of Some v \<Rightarrow> v | None \<Rightarrow> JUndefined)"
| "get_prop v k = JUndefined"

text \<open>
  The characters of a string: a character begins at each byte that is not a continuation
  byte (\<open>80\<close> to \<open>BF\<close>) of the encoding.
\<close>

definition is_continuation :: "char \<Rightarrow> bool" where
  "is_continuation c \<longleftrightarrow> 128 \<le> (of_char c :: nat) \<and> (of_char c :: nat) < 192"

function code_points :: "string \<Rightarrow> string list" where
  "code_points [] = []"
| "code_points (c # s) = (c # takeWhile is_continuation s) # code_points (dropWhile is_continuation s)"
  by pat_completeness auto
termination
  by (relation "measure length") (simp_all add: length_dropWhile_le le_imp_less_Suc)

text \<open>
  \<^verbatim>\<open>v?.k\<close> and \<^verbatim>\<open>v?.[0]\<close>. On a string \<^verbatim>\<open>[0]\<close> is its first character (of a
  character beyond U+FFFF JavaScript gives the first half, which no string here
  denotes; the program reads a property of the result and nothing else, and a string of
  one character has none of the properties it reads).
\<close>

definition opt_prop :: "jsval \<Rightarrow> string \<Rightarrow> jsval" where
  "opt_prop v k = (if nullish v then JUndefined else get_prop v k)"

fun opt_index0 :: "jsval \<Rightarrow> jsval" where
  "opt_index0 (JArr xs) = (case xs of [] \<Rightarrow> JUndefined | x # _ \<Rightarrow> x)"
| "opt_index0 (JStr s) = (case code_points s of [] \<Rightarrow> JUndefined | c # _ \<Rightarrow> JStr c)"
| "opt_index0 (JObj kvs) = get_prop (JObj kvs) ''0''"
| "opt_index0 v = JUndefined"

text \<open>
  \<^verbatim>\<open>a === b\<close> for two values read from different places of a parsed payload: primitives
  are compared by type and value, two arrays or objects are different references.
\<close>

fun strict_eq :: "jsval \<Rightarrow> jsval \<Rightarrow> bool" where
  "strict_eq (JArr xs) b = False"
| "strict_eq (JObj kvs) b = False"
| "strict_eq a b = (a = b)"

text \<open>
  What \<^verbatim>\<open>for (const x of v)\<close> iterates over: the elements of an array, the characters
  of a string; \<open>None\<close> when \<open>v\<close> is not iterable.
\<close>

fun iterate :: "jsval \<Rightarrow> jsval list option" where
  "iterate (JArr xs) = Some xs"
| "iterate (JStr s) = Some (map JStr (code_points s))"
| "iterate v = None"

subsection \<open>\<^verbatim>\<open>parseInt\<close> and \<^verbatim>\<open>new Date\<close>\<close>

function digits :: "int \<Rightarrow> string" where
  "digits n = (if n < 10 then [char_of (48 + n)] else digits (n div 10) @ [char_of (48 + n mod 10)])"
  by pat_completeness auto
termination
  by (relation "measure nat") simp_all

declare digits.simps [simp del]

fun join_comma :: "string list \<Rightarrow> string" where
  "join_comma [] = []"
| "join_comma [x] = x"
| "join_comma (x # y # r) = x @ CHR '','' # join_comma (y # r)"

text \<open>\<^verbatim>\<open>String(v)\<close>, the first step of \<^verbatim>\<open>parseInt(v)\<close>.\<close>

fun to_string :: "jsval \<Rightarrow> string" where
  "to_string JUndefined = ''undefined''"
| "to_string JNull = ''null''"
| "to_string (JBool b) = (if b then ''true'' else ''false'')"
| "to_string (JNum n) =
     (if int_of_safe n < 0 then CHR ''-'' # digits (- int_of_safe n) else digits (int_of_safe n))"
| "to_string (JStr s) = s"
| "to_string (JArr xs) = join_comma (map (\<lambda>x. if x = JUndefined \<or> x = JNull then [] else to_string x) xs)"
| "to_string (JObj kvs) = ''[object Object]''"

text \<open>
  The white space that \<^verbatim>\<open>parseInt\<close> skips: the number of bytes of the white space or
  line terminator character a string begins with, and 0 when it begins with none. The
  characters are U+0009 to U+000D and U+0020 (one byte), U+00A0 (\<open>C2 A0\<close>), U+1680
  (\<open>E1 9A 80\<close>), U+2000 to U+200A, U+2028, U+2029 and U+202F (\<open>E2 80 xx\<close>), U+205F
  (\<open>E2 81 9F\<close>), U+3000 (\<open>E3 80 80\<close>) and U+FEFF (\<open>EF BB BF\<close>).
\<close>

definition ws_length :: "string \<Rightarrow> nat" where
  "ws_length s =
     (case map of_char s :: nat list of
        [] \<Rightarrow> 0
      | a # r \<Rightarrow>
          if a \<in> {9, 10, 11, 12, 13, 32} then 1
          else (case r of
                  [] \<Rightarrow> 0
                | b # r' \<Rightarrow>
                    if a = 194 \<and> b = 160 then 2
                    else (case r' of
                            [] \<Rightarrow> 0
                          | c # _ \<Rightarrow>
                              if (a = 225 \<and> b = 154 \<and> c = 128) \<or>
                                 (a = 226 \<and> b = 128 \<and> (128 \<le> c \<and> c \<le> 138 \<or> c \<in> {168, 169, 175})) \<or>
                                 (a = 226 \<and> b = 129 \<and> c = 159) \<or>
                                 (a = 227 \<and> b = 128 \<and> c = 128) \<or>
                                 (a = 239 \<and> b = 187 \<and> c = 191)
                              then 3 else 0)))"

function skip_ws :: "string \<Rightarrow> string" where
  "skip_ws s = (if ws_length s = 0 then s else skip_ws (drop (ws_length s) s))"
  by pat_completeness auto
termination
proof (relation "measure length")
  show "wf (measure length)"
    by simp
next
  fix s :: string
  assume "ws_length s \<noteq> 0"
  then show "(drop (ws_length s) s, s) \<in> measure length"
    by (cases s) (simp_all add: ws_length_def split: list.splits if_splits)
qed

declare skip_ws.simps [simp del]

definition digit_val :: "char \<Rightarrow> nat option" where
  "digit_val c = (let n = (of_char c :: nat) in
     if 48 \<le> n \<and> n \<le> 57 then Some (n - 48)
     else if 97 \<le> n \<and> n \<le> 122 then Some (n - 87)
     else if 65 \<le> n \<and> n \<le> 90 then Some (n - 55)
     else None)"

definition is_digit :: "nat \<Rightarrow> char \<Rightarrow> bool" where
  "is_digit radix c = (case digit_val c of Some d \<Rightarrow> d < radix | None \<Rightarrow> False)"

definition digit_num :: "char \<Rightarrow> nat" where
  "digit_num c = (case digit_val c of Some d \<Rightarrow> d | None \<Rightarrow> 0)"

text \<open>
  \<^verbatim>\<open>parseInt(v)\<close> with no radix: skip white space, read a sign, read \<^verbatim>\<open>0x\<close> as
  radix 16, take the longest run of digits; \<open>None\<close> is \<^verbatim>\<open>NaN\<close> (no digit at all).
  The result is the integer the digits denote. JavaScript rounds it to a double, which
  changes it only from \<open>2^53\<close> on; the program uses it for \<^verbatim>\<open>new Date\<close> alone, and
  there the integer and the double give the same date (see \<open>Date_of_seconds\<close>).
\<close>

definition parseInt :: "jsval \<Rightarrow> int option" where
  "parseInt v =
     (let s = skip_ws (to_string v);
          neg = (s \<noteq> [] \<and> hd s = CHR ''-'');
          s1 = (if s \<noteq> [] \<and> (hd s = CHR ''-'' \<or> hd s = CHR ''+'') then tl s else s);
          hex = (take 2 s1 = ''0x'' \<or> take 2 s1 = ''0X'');
          radix = (if hex then 16 else 10 :: nat);
          s2 = (if hex then drop 2 s1 else s1);
          ds = takeWhile (is_digit radix) s2
      in if ds = [] then None
         else Some ((if neg then - 1 else 1) * foldl (\<lambda>a c. a * int radix + int (digit_num c)) 0 ds))"

text \<open>A \<^verbatim>\<open>Date\<close> object: its time value in milliseconds, or \<^verbatim>\<open>Invalid Date\<close>.\<close>

datatype jsdate = Invalid_Date | Date_ms int

text \<open>
  \<^verbatim>\<open>new Date(x * 1000)\<close> for the result \<open>x\<close> of \<^verbatim>\<open>parseInt\<close>: a time value beyond
  \<open>8.64 * 10^15\<close> milliseconds gives an \<^verbatim>\<open>Invalid Date\<close>. The bound is below \<open>2^53\<close>, so
  a product within it is exact, and one beyond it is beyond it after rounding too.
\<close>

definition Date_of_seconds :: "int option \<Rightarrow> jsdate" where
  "Date_of_seconds x =
     (case x of
        None \<Rightarrow> Invalid_Date
      | Some n \<Rightarrow> if \<bar>n * 1000\<bar> \<le> 8640000000000000 then Date_ms (n * 1000) else Invalid_Date)"

section \<open>The collection \<^verbatim>\<open>processed_messages\<close>\<close>

datatype direction = Inbound | Outbound

text \<open>The object \<^verbatim>\<open>doc\<close> that the ingest script builds for a message.\<close>

record msgdoc =
  wa_id :: jsval
  doc_from :: jsval
  doc_to :: jsval
  msg_id :: jsval
  meta_msg_id :: jsval
  direction :: direction
  doc_text :: jsval
  status :: jsval
  timestamp :: jsdate
  createdAt :: jsdate

text \<open>A stored document: the same fields, the \<^verbatim>\<open>_id\<close> of the store and \<^verbatim>\<open>updatedAt\<close>.\<close>

record doc = msgdoc +
  doc_id :: nat
  updatedAt :: jsdate

text \<open>
  The environment: the wall clock (\<open>clk e k\<close> is what the \<open>k\<close>-th reading of the clock
  returns) and \<^verbatim>\<open>process.env.BUSINESS_NUMBER\<close>.
\<close>

record env =
  clk :: "nat \<Rightarrow> int"
  BUSINESS_NUMBER :: "string option"

text \<open>
  The state: the documents of the collection in their natural order, the number of clock
  readings made so far, and the next \<^verbatim>\<open>_id\<close> the store gives out.
\<close>

record state =
  docs :: "doc list"
  tick :: nat
  next_id :: nat

text \<open>\<^verbatim>\<open>new Date()\<close>: the value read, and the state after the reading.\<close>

definition now :: "env \<Rightarrow> state \<Rightarrow> jsdate" where
  "now e s = Date_ms (clk e (tick s))"

definition ticked :: "state \<Rightarrow> state" where
  "ticked s = s\<lparr>tick := Suc (tick s)\<rparr>"

subsection \<open>The store\<close>

text \<open>
  The store is the storage boundary of the specification: a store with unique-key upsert
  and partial-field update by an OR-query across two fields. Its operations are modelled
  for what the program asks of them. A value is written as the driver serialises it:
  \<^verbatim>\<open>undefined\<close> becomes \<^verbatim>\<open>null\<close>, and a \<^verbatim>\<open>Date\<close> is written as its time value, an
  \<^verbatim>\<open>Invalid Date\<close> (whose time value is \<^verbatim>\<open>NaN\<close>) as the time value 0. This matters
  for \<^verbatim>\<open>timestamp\<close> only: \<^verbatim>\<open>createdAt\<close> and \<^verbatim>\<open>updatedAt\<close> are readings of the clock.
  A query \<^verbatim>\<open>{field: v}\<close> selects the documents whose field equals the serialised \<open>v\<close>
  or is an array with an element equal to it; every document of this collection has
  every field, so the rule for a missing field is the rule for \<^verbatim>\<open>null\<close>.
  \<^verbatim>\<open>{field: {$ne: v}}\<close> selects the documents that \<^verbatim>\<open>{field: v}\<close> does not select.
  \<^verbatim>\<open>updateOne\<close> changes the first selected document in natural order.
  Two things are left out: an object in the place of \<open>v\<close> whose keys begin with \<open>$\<close>,
  which the store reads as query operators, is compared as a value here; and the unique
  index on \<^verbatim>\<open>msg_id\<close> is not consulted when an upsert inserts (it can refuse a
  \<^verbatim>\<open>msg_id\<close> that is an array sharing an element with a stored one).
\<close>

definition to_bson :: "jsval \<Rightarrow> jsval" where
  "to_bson v = (if v = JUndefined then JNull else v)"

definition bson_date :: "jsdate \<Rightarrow> jsdate" where
  "bson_date t = (case t of Invalid_Date \<Rightarrow> Date_ms 0 | Date_ms n \<Rightarrow> Date_ms n)"

text \<open>The query \<^verbatim>\<open>{field: q}\<close> on a document whose field holds \<open>fv\<close>.\<close>

definition eq_match :: "jsval \<Rightarrow> jsval \<Rightarrow> bool" where
  "eq_match q fv \<longleftrightarrow> fv = to_bson q \<or> (case fv of JArr xs \<Rightarrow> to_bson q \<in> set xs | _ \<Rightarrow> False)"

fun update_first :: "('a \<Rightarrow> bool) \<Rightarrow> ('a \<Rightarrow> 'a) \<Rightarrow> 'a list \<Rightarrow> 'a list" where
  "update_first p f [] = []"
| "update_first p f (d # ds) = (if p d then f d # ds else d # update_first p f ds)"

text \<open>The document an upsert inserts: the serialised \<^verbatim>\<open>doc\<close>, \<^verbatim>\<open>updatedAt\<close>, a new \<^verbatim>\<open>_id\<close>.\<close>

definition inserted :: "msgdoc \<Rightarrow> jsdate \<Rightarrow> nat \<Rightarrow> doc" where
  "inserted md upd i =
     \<lparr>wa_id = to_bson (wa_id md), doc_from = to_bson (doc_from md), doc_to = to_bson (doc_to md),
      msg_id = to_bson (msg_id md), meta_msg_id = to_bson (meta_msg_id md),
      direction = direction md, doc_text = to_bson (doc_text md), status = to_bson (status md),
      timestamp = bson_date (timestamp md), createdAt = createdAt md, doc_id = i, updatedAt = upd\<rparr>"

text \<open>
  \<^verbatim>\<open>col.updateOne({msg_id: doc.msg_id}, {$setOnInsert: doc, $set: {updatedAt: upd}}, {upsert: true})\<close>
\<close>

definition upsert_by_msg_id :: "msgdoc \<Rightarrow> jsdate \<Rightarrow> state \<Rightarrow> state" where
  "upsert_by_msg_id md upd s =
     (if list_ex (\<lambda>d. eq_match (msg_id md) (msg_id d)) (docs s)
      then s\<lparr>docs := update_first (\<lambda>d. eq_match (msg_id md) (msg_id d))
                       (\<lambda>d. d\<lparr>updatedAt := upd\<rparr>) (docs s)\<rparr>
      else s\<lparr>docs := docs s @ [inserted md upd (next_id s)], next_id := Suc (next_id s)\<rparr>)"

text \<open>The query \<^verbatim>\<open>{$or: [{msg_id: id}, {meta_msg_id: id}]}\<close>.\<close>

definition or_query :: "jsval \<Rightarrow> doc \<Rightarrow> bool" where
  "or_query ident d \<longleftrightarrow> eq_match ident (msg_id d) \<or> eq_match ident (meta_msg_id d)"

text \<open>\<^verbatim>\<open>col.updateOne(query, {$set: {status, updatedAt: upd}})\<close>\<close>

definition set_status :: "jsval \<Rightarrow> jsdate \<Rightarrow> doc \<Rightarrow> doc" where
  "set_status st upd d = d\<lparr>status := to_bson st, updatedAt := upd\<rparr>"

definition updateOne_status :: "jsval \<Rightarrow> jsval \<Rightarrow> jsdate \<Rightarrow> doc list \<Rightarrow> doc list" where
  "updateOne_status ident st upd ds = update_first (or_query ident) (set_status st upd) ds"

section \<open>The ingest script\<close>

datatype error = TypeError

text \<open>
  A loop of awaited store calls. An exception leaves the loop, and the script, at once;
  what was written before it stays written, so the state is returned with the error.
\<close>

fun for_each :: "(state \<Rightarrow> 'a \<Rightarrow> error option \<times> state) \<Rightarrow> 'a list \<Rightarrow> state \<Rightarrow> error option \<times> state" where
  "for_each f [] s = (None, s)"
| "for_each f (x # xs) s =
     (case f s x of
        (None, s') \<Rightarrow> for_each f xs s'
      | (Some err, s') \<Rightarrow> (Some err, s'))"

definition and_then :: "error option \<times> state \<Rightarrow> (state \<Rightarrow> error option \<times> state) \<Rightarrow> error option \<times> state" where
  "and_then r f = (case r of (None, s) \<Rightarrow> f s | (Some err, s) \<Rightarrow> (Some err, s))"

text \<open>The business identity each branch compares the sender with.\<close>

definition envelope_number :: "jsval \<Rightarrow> jsval" where
  "envelope_number v = js_or (opt_prop (get_prop v ''metadata'') ''phone_number_id'') (JStr '''')"

definition env_number :: "env \<Rightarrow> jsval" where
  "env_number e = js_or (case BUSINESS_NUMBER e of None \<Rightarrow> JUndefined | Some b \<Rightarrow> JStr b) (JStr '''')"

text \<open>The \<^verbatim>\<open>doc\<close> of a message inside a provider envelope (\<open>v\<close> is \<^verbatim>\<open>change.value || {}\<close>).\<close>

definition doc_nested :: "jsval \<Rightarrow> jsval \<Rightarrow> jsdate \<Rightarrow> msgdoc" where
  "doc_nested v m created =
     \<lparr>wa_id = get_prop m ''from'',
      doc_from = js_or (opt_prop (opt_prop (opt_index0 (get_prop v ''contacts'')) ''profile'') ''name'') (get_prop m ''from''),
      doc_to = envelope_number v,
      msg_id = get_prop m ''id'',
      meta_msg_id = js_or (opt_prop (get_prop m ''context'') ''id'') JNull,
      direction = (if strict_eq (get_prop m ''from'') (envelope_number v) then Outbound else Inbound),
      doc_text = js_or (opt_prop (get_prop m ''text'') ''body'') (js_or (get_prop m ''body'') (JStr '''')),
      status = JStr ''received'',
      timestamp = Date_of_seconds (parseInt (get_prop m ''timestamp'')),
      createdAt = created\<rparr>"

text \<open>The \<^verbatim>\<open>doc\<close> of a message of a flat payload.\<close>

definition doc_flat :: "env \<Rightarrow> jsval \<Rightarrow> jsdate \<Rightarrow> msgdoc" where
  "doc_flat e m created =
     \<lparr>wa_id = get_prop m ''from'',
      doc_from = get_prop m ''from'',
      doc_to = js_or (get_prop m ''to'') (JStr ''''),
      msg_id = get_prop m ''id'',
      meta_msg_id = js_or (opt_prop (get_prop m ''context'') ''id'') JNull,
      direction = (if strict_eq (get_prop m ''from'') (env_number e) then Outbound else Inbound),
      doc_text = js_or (opt_prop (get_prop m ''text'') ''body'') (JStr ''''),
      status = JStr ''received'',
      timestamp = Date_of_seconds (parseInt (get_prop m ''timestamp'')),
      createdAt = created\<rparr>"

text \<open>
  One round of a message loop: \<^verbatim>\<open>m.from\<close> throws on \<^verbatim>\<open>null\<close>; the clock is read for
  \<^verbatim>\<open>createdAt\<close>, then for \<^verbatim>\<open>updatedAt\<close>; then the upsert.
\<close>

definition upsert_message :: "env \<Rightarrow> (jsdate \<Rightarrow> msgdoc) \<Rightarrow> state \<Rightarrow> state" where
  "upsert_message e mk s = upsert_by_msg_id (mk (now e s)) (now e (ticked s)) (ticked (ticked s))"

definition process_message_nested :: "env \<Rightarrow> jsval \<Rightarrow> state \<Rightarrow> jsval \<Rightarrow> error option \<times> state" where
  "process_message_nested e v s m =
     (if nullish m then (Some TypeError, s) else (None, upsert_message e (doc_nested v m) s))"

definition process_message_flat :: "env \<Rightarrow> state \<Rightarrow> jsval \<Rightarrow> error option \<times> state" where
  "process_message_flat e s m =
     (if nullish m then (Some TypeError, s) else (None, upsert_message e (doc_flat e m) s))"

text \<open>One round of a status loop (the two loops of the script are the same code).\<close>

definition status_key :: "jsval \<Rightarrow> jsval" where
  "status_key st = js_or (get_prop st ''id'') (get_prop st ''meta_msg_id'')"

definition apply_status :: "env \<Rightarrow> jsval \<Rightarrow> state \<Rightarrow> state" where
  "apply_status e st s =
     (ticked s)\<lparr>docs := updateOne_status (status_key st) (get_prop st ''status'') (now e s) (docs s)\<rparr>"

definition process_status :: "env \<Rightarrow> state \<Rightarrow> jsval \<Rightarrow> error option \<times> state" where
  "process_status e s st =
     (if nullish st then (Some TypeError, s) else (None, apply_status e st s))"

definition process_change :: "env \<Rightarrow> state \<Rightarrow> jsval \<Rightarrow> error option \<times> state" where
  "process_change e s change =
     (if nullish change then (Some TypeError, s)
      else let v = js_or (get_prop change ''value'') (JObj []) in
        and_then
          (case get_prop v ''messages'' of
             JArr ms \<Rightarrow> for_each (process_message_nested e v) ms s
           | _ \<Rightarrow> (None, s))
          (\<lambda>s1. case get_prop v ''statuses'' of
             JArr ss \<Rightarrow> for_each (process_status e) ss s1
           | _ \<Rightarrow> (None, s1)))"

definition process_entry :: "env \<Rightarrow> state \<Rightarrow> jsval \<Rightarrow> error option \<times> state" where
  "process_entry e s entry =
     (if nullish entry then (Some TypeError, s)
      else case iterate (js_or (get_prop entry ''changes'') (JArr [])) of
             None \<Rightarrow> (Some TypeError, s)
           | Some cs \<Rightarrow> for_each (process_change e) cs s)"

text \<open>The fallback branch: messages and statuses at the top level of the payload.\<close>

definition process_flat :: "env \<Rightarrow> state \<Rightarrow> jsval \<Rightarrow> error option \<times> state" where
  "process_flat e s payload =
     and_then
       (case get_prop payload ''messages'' of
          JArr ms \<Rightarrow> for_each (process_message_flat e) ms s
        | _ \<Rightarrow> (None, s))
       (\<lambda>s1. case get_prop payload ''statuses'' of
          JArr ss \<Rightarrow> for_each (process_status e) ss s1
        | _ \<Rightarrow> (None, s1))"

definition payload_entries :: "jsval \<Rightarrow> jsval" where
  "payload_entries payload =
     js_or (opt_prop (get_prop payload ''metaData'') ''entry'')
           (if truthy (get_prop payload ''entry'') then get_prop payload ''entry'' else JNull)"

definition process_payload :: "env \<Rightarrow> state \<Rightarrow> jsval \<Rightarrow> error option \<times> state" where
  "process_payload e s payload =
     (if nullish payload then (Some TypeError, s)
      else case payload_entries payload of
             JArr es \<Rightarrow> for_each (process_entry e) es s
           | _ \<Rightarrow> process_flat e s payload)"

text \<open>A payload file: text that \<^verbatim>\<open>JSON.parse\<close> rejects, or the parsed value.\<close>

datatype payload_file = Unparsable | Parsed jsval

definition process_file :: "env \<Rightarrow> state \<Rightarrow> payload_file \<Rightarrow> error option \<times> state" where
  "process_file e s f =
     (case f of
        Unparsable \<Rightarrow> (None, s)
      | Parsed (JArr payloads) \<Rightarrow> for_each (process_payload e) payloads s
      | Parsed _ \<Rightarrow> (None, s))"

definition run :: "env \<Rightarrow> payload_file list \<Rightarrow> state \<Rightarrow> error option \<times> state" where
  "run e files s = for_each (process_file e) files s"

section \<open>The server\<close>

subsection \<open>The change stream\<close>

record change =
  operationType :: string
  fullDocument :: "doc option"

datatype idval = Field jsval | ObjectId nat

text \<open>
  \<^verbatim>\<open>io.emit('new_message', {chatId, message})\<close> and
  \<^verbatim>\<open>io.emit('message_status', {chatId, msg_id, status, full})\<close>; \<^verbatim>\<open>io.emit\<close> sends to
  every connected socket.
\<close>

datatype event =
    New_message jsval doc
  | Message_status jsval idval jsval doc

definition event_msg_id :: "doc \<Rightarrow> idval" where
  "event_msg_id d =
     (if truthy (msg_id d) then Field (msg_id d)
      else if truthy (meta_msg_id d) then Field (meta_msg_id d)
      else ObjectId (doc_id d))"

text \<open>The handler of \<^verbatim>\<open>changeStream.on('change', ...)\<close>: the events it emits.\<close>

definition on_change :: "change \<Rightarrow> error + event list" where
  "on_change c =
     (if operationType c = ''insert'' then
        (case fullDocument c of
           None \<Rightarrow> Inl TypeError
         | Some d \<Rightarrow> Inr [New_message (wa_id d) d])
      else if operationType c = ''update'' \<or> operationType c = ''replace'' then
        (case fullDocument c of
           None \<Rightarrow> Inl TypeError
         | Some d \<Rightarrow> Inr [Message_status (wa_id d) (event_msg_id d) (js_or (status d) JNull) d])
      else Inr [])"

subsection \<open>\<^verbatim>\<open>GET /api/chats\<close>\<close>

text \<open>
  The sort key of a stored date, its time value (the store holds no \<^verbatim>\<open>Invalid Date\<close>;
  as the driver would write one as 0, that is its key).
\<close>

definition date_key :: "jsdate \<Rightarrow> int" where
  "date_key t = (case t of Invalid_Date \<Rightarrow> 0 | Date_ms n \<Rightarrow> n)"

record chat =
  chat_id :: jsval
  chat_wa_id :: jsval
  name :: jsval
  lastMessage :: jsval
  lastTimestamp :: jsdate
  unreadCount :: nat

definition is_unread :: "doc \<Rightarrow> bool" where
  "is_unread d \<longleftrightarrow> direction d = Inbound \<and> status d \<noteq> JStr ''read''"

text \<open>
  The \<^verbatim>\<open>$group\<close> stage on one group (\<open>k\<close> is its \<^verbatim>\<open>$wa_id\<close>): \<^verbatim>\<open>$first\<close> reads the
  first document of the group, which is never empty.
\<close>

definition group_summary :: "jsval \<Rightarrow> doc list \<Rightarrow> chat" where
  "group_summary k g =
     (case g of
        [] \<Rightarrow> \<lparr>chat_id = k, chat_wa_id = JNull, name = JNull, lastMessage = JNull,
               lastTimestamp = Invalid_Date, unreadCount = 0\<rparr>
      | d # _ \<Rightarrow> \<lparr>chat_id = k, chat_wa_id = wa_id d, name = doc_from d, lastMessage = doc_text d,
                  lastTimestamp = timestamp d, unreadCount = length (filter is_unread g)\<rparr>)"

text \<open>
  The pipeline: \<^verbatim>\<open>{$sort: {timestamp: -1}}\<close>, \<^verbatim>\<open>$group\<close> by \<^verbatim>\<open>$wa_id\<close>,
  \<^verbatim>\<open>{$sort: {lastTimestamp: -1}}\<close>. The store leaves the order of documents with equal
  sort keys open; here they keep the order they had.
\<close>

definition sort_desc :: "('a \<Rightarrow> int) \<Rightarrow> 'a list \<Rightarrow> 'a list" where
  "sort_desc key xs = sort_key (\<lambda>x. - key x) xs"

definition list_conversations :: "doc list \<Rightarrow> chat list" where
  "list_conversations ds =
     (let sorted = sort_desc (\<lambda>d. date_key (timestamp d)) ds
      in sort_desc (\<lambda>c. date_key (lastTimestamp c))
           (map (\<lambda>k. group_summary k (filter (\<lambda>d. wa_id d = k) sorted)) (remdups (map wa_id sorted))))"

subsection \<open>\<^verbatim>\<open>GET /api/messages/:wa_id\<close>\<close>

text \<open>\<^verbatim>\<open>col.find({wa_id}).sort({timestamp: 1, createdAt: 1})\<close>\<close>

definition find_by_wa_id :: "string \<Rightarrow> doc list \<Rightarrow> doc list" where
  "find_by_wa_id w ds =
     sort_key (\<lambda>d. date_key (timestamp d))
       (sort_key (\<lambda>d. date_key (createdAt d)) (filter (\<lambda>d. eq_match (JStr w) (wa_id d)) ds))"

text \<open>
  \<^verbatim>\<open>col.updateMany({wa_id, direction: 'inbound', status: {$ne: 'read'}},
  {$set: {status: 'read', updatedAt: upd}})\<close>
\<close>

definition mark_read :: "string \<Rightarrow> jsdate \<Rightarrow> doc list \<Rightarrow> doc list" where
  "mark_read w upd ds =
     map (\<lambda>d. if eq_match (JStr w) (wa_id d) \<and> direction d = Inbound \<and>
                 \<not> eq_match (JStr ''read'') (status d)
              then d\<lparr>status := JStr ''read'', updatedAt := upd\<rparr> else d) ds"

definition get_conversation_messages :: "env \<Rightarrow> string \<Rightarrow> state \<Rightarrow> doc list \<times> state" where
  "get_conversation_messages e w s =
     (find_by_wa_id w (docs s), (ticked s)\<lparr>docs := mark_read w (now e s) (docs s)\<rparr>)"

subsection \<open>\<^verbatim>\<open>POST /api/status\<close>\<close>

datatype response = Success | Bad_Request | Not_Found

definition update_status :: "env \<Rightarrow> jsval \<Rightarrow> jsval \<Rightarrow> state \<Rightarrow> response \<times> state" where
  "update_status e ident st s =
     (if \<not> truthy ident \<or> \<not> truthy st then (Bad_Request, s)
      else (if list_ex (or_query ident) (docs s) then Success else Not_Found,
            (ticked s)\<lparr>docs := updateOne_status ident st (now e s) (docs s)\<rparr>))"

section \<open>Notions the properties are stated with\<close>

text \<open>The four status values of the data model.\<close>

definition status_enum :: "jsval \<Rightarrow> bool" where
  "status_enum v \<longleftrightarrow> v \<in> {JStr ''received'', JStr ''sent'', JStr ''delivered'', JStr ''read''}"


text \<open>A document without \<^verbatim>\<open>updatedAt\<close>.\<close>

definition content :: "doc \<Rightarrow> doc" where
  "content d = d\<lparr>updatedAt := Invalid_Date\<rparr>"

text \<open>The fields that are written when a document is created and never after.\<close>

definition creation_fields :: "doc \<Rightarrow> doc" where
  "creation_fields d = d\<lparr>status := JNull, updatedAt := Invalid_Date\<rparr>"

text \<open>
  \<open>s'\<close> keeps every document of \<open>s\<close>, in its place and with its creation fields; it may
  hold more documents after them.
\<close>

definition keeps_creation_fields :: "state \<Rightarrow> state \<Rightarrow> bool" where
  "keeps_creation_fields s s' \<longleftrightarrow>
     take (length (docs s)) (map creation_fields (docs s')) = map creation_fields (docs s)"




text \<open>At most one record for each \<^verbatim>\<open>msg_id\<close>.\<close>

definition unique_msg_ids :: "state \<Rightarrow> bool" where
  "unique_msg_ids s \<longleftrightarrow> distinct (map msg_id (docs s))"

section \<open>Concrete inputs\<close>

definition ex_env :: env where
  "ex_env = \<lparr>clk = (\<lambda>k. 5000 + int k), BUSINESS_NUMBER = Some ''biz''\<rparr>"

definition empty_store :: state where
  "empty_store = \<lparr>docs = [], tick = 0, next_id = 0\<rparr>"

text \<open>The message of the specification's scenarios.\<close>

definition ex_m1 :: jsval where
  "ex_m1 = JObj [(''id'', JStr ''m1''), (''from'', JStr ''111''), (''timestamp'', JStr ''1000''),
                 (''text'', JObj [(''body'', JStr ''hi'')])]"

definition ex_flat_m1 :: jsval where
  "ex_flat_m1 = JObj [(''messages'', JArr [ex_m1])]"

text \<open>A message sent by the configured business number, inside an envelope of another number.\<close>

definition ex_m_biz :: jsval where
  "ex_m_biz = JObj [(''id'', JStr ''m2''), (''from'', JStr ''biz''), (''timestamp'', JStr ''1000'')]"

definition ex_value_999 :: jsval where
  "ex_value_999 = JObj [(''metadata'', JObj [(''phone_number_id'', JStr ''999'')]),
                        (''messages'', JArr [ex_m_biz])]"

definition ex_nested_biz :: jsval where
  "ex_nested_biz = JObj [(''entry'', JArr [JObj [(''changes'', JArr [JObj [(''value'', ex_value_999)]])]])]"

definition ex_flat_biz :: jsval where
  "ex_flat_biz = JObj [(''messages'', JArr [ex_m_biz])]"

text \<open>An envelope whose first change carries a status of \<open>m1\<close> and whose second carries \<open>m1\<close>.\<close>

definition ex_status_read_m1 :: jsval where
  "ex_status_read_m1 = JObj [(''id'', JStr ''m1''), (''status'', JStr ''read'')]"



definition ex_status_no_id :: jsval where
  "ex_status_no_id = JObj [(''status'', JStr ''read'')]"

definition ex_status_bogus :: jsval where
  "ex_status_bogus = JObj [(''id'', JStr ''m1''), (''status'', JStr ''bogus'')]"

text \<open>The store after \<open>ex_flat_m1\<close> was ingested into the empty store.\<close>

definition store_m1 :: state where
  "store_m1 = snd (process_payload ex_env empty_store ex_flat_m1)"


text \<open>A stored message that came without an id, as a reply to \<open>ctx1\<close>.\<close>

definition ex_doc_no_id :: doc where
  "ex_doc_no_id =
     \<lparr>wa_id = JStr ''111'', doc_from = JStr ''111'', doc_to = JStr '''', msg_id = JNull,
      meta_msg_id = JStr ''ctx1'', direction = Inbound, doc_text = JStr ''hi'', status = JStr ''read'',
      timestamp = Date_ms 1000000, createdAt = Date_ms 5000, doc_id = 7, updatedAt = Date_ms 5001\<rparr>"

text \<open>Two messages of one sender with the same \<^verbatim>\<open>timestamp\<close>, in one flat payload.\<close>

definition ex_same_second :: jsval where
  "ex_same_second = JObj [(''messages'', JArr
     [JObj [(''id'', JStr ''a1''), (''from'', JStr ''111''), (''timestamp'', JStr ''1000''),
            (''text'', JObj [(''body'', JStr ''first'')])],
      JObj [(''id'', JStr ''a2''), (''from'', JStr ''111''), (''timestamp'', JStr ''1000''),
            (''text'', JObj [(''body'', JStr ''second'')])]])]"



section \<open>Basic facts\<close>

lemma docs_ticked [simp]: "docs (ticked s) = docs s"
  by (simp add: ticked_def)

lemma next_id_ticked [simp]: "next_id (ticked s) = next_id s"
  by (simp add: ticked_def)

lemma ticked_docs_same [simp]: "(ticked s)\<lparr>docs := docs s\<rparr> = ticked s"
  by (simp add: ticked_def)

lemma to_bson_truthy: "truthy v \<Longrightarrow> to_bson v = v"
  by (auto simp: to_bson_def)

lemma to_bson_undefined [simp]: "to_bson JUndefined = JNull"
  by (simp add: to_bson_def)

lemma to_bson_JStr [simp]: "to_bson (JStr x) = JStr x"
  by (simp add: to_bson_def)


lemma update_first_at:
  "\<not> list_ex p pre \<Longrightarrow> p d \<Longrightarrow> update_first p f (pre @ d # post) = pre @ f d # post"
  by (induction pre) auto

lemma length_update_first [simp]: "length (update_first p f ds) = length ds"
  by (induction ds) auto

lemma eq_match_self [simp]: "eq_match q (to_bson q)"
  by (simp add: eq_match_def)

lemma eq_match_undefined:
  "eq_match JUndefined fv \<longleftrightarrow> fv = JNull \<or> (\<exists>xs. fv = JArr xs \<and> JNull \<in> set xs)"
  by (cases fv) (auto simp: eq_match_def)

lemma upsert_absent:
  "\<not> list_ex (\<lambda>d. eq_match (msg_id md) (msg_id d)) (docs s) \<Longrightarrow>
     docs (upsert_by_msg_id md upd s) = docs s @ [inserted md upd (next_id s)]"
  by (simp add: upsert_by_msg_id_def)

lemma docs_upsert_message_absent:
  "\<not> list_ex (\<lambda>d. eq_match (msg_id (mk (now e s))) (msg_id d)) (docs s) \<Longrightarrow>
     docs (upsert_message e mk s) =
       docs s @ [inserted (mk (now e s)) (now e (ticked s)) (next_id s)]"
  by (simp add: upsert_message_def upsert_absent)

lemma msg_id_doc_flat [simp]: "msg_id (doc_flat e m c) = get_prop m ''id''"
  by (simp add: doc_flat_def)

lemma msg_id_doc_nested [simp]: "msg_id (doc_nested v m c) = get_prop m ''id''"
  by (simp add: doc_nested_def)

lemma env_number_eq: "env_number e = JStr (case BUSINESS_NUMBER e of None \<Rightarrow> '''' | Some b \<Rightarrow> b)"
  by (simp add: env_number_def js_or_def split: option.splits)

lemma strict_eq_JStr [simp]: "strict_eq a (JStr b) \<longleftrightarrow> a = JStr b"
  by (cases a) auto


text \<open>
  \<^verbatim>\<open>parseInt\<close> and \<^verbatim>\<open>new Date\<close> at some inputs: a no-break space and a space are
  skipped, a zero-width space (U+200B) is not; the digits end at the first character
  that is none; an array is read through its first element.
\<close>

lemma parseInt_examples:
  "parseInt (JStr ''1700000000'') = Some 1700000000 \<and>
   parseInt (JStr (char_of (194::nat) # char_of (160::nat) # '' 12abc'')) = Some 12 \<and>
   parseInt (JStr (char_of (226::nat) # char_of (128::nat) # char_of (139::nat) # ''12'')) = None \<and>
   parseInt (JStr ''-0x1F'') = Some (- 31) \<and>
   parseInt (JStr ''abc'') = None \<and>
   parseInt (JStr []) = None \<and>
   parseInt (JNum (safe_num 1700000000)) = Some 1700000000 \<and>
   parseInt (JNum (safe_num (- 5))) = Some (- 5) \<and>
   parseInt (JArr [JStr ''7'', JStr ''8'']) = Some 7 \<and>
   parseInt JNull = None \<and>
   parseInt (JBool True) = None"
  by code_simp

lemma Date_of_seconds_examples:
  "Date_of_seconds (Some 1700000000) = Date_ms 1700000000000 \<and>
   Date_of_seconds (Some 8640000000000) = Date_ms 8640000000000000 \<and>
   Date_of_seconds (Some 8640000000001) = Invalid_Date \<and>
   Date_of_seconds (Some (- 8640000000001)) = Invalid_Date \<and>
   Date_of_seconds None = Invalid_Date"
  by code_simp

section \<open>Direction of an ingested message\<close>

text \<open>
  What the two branches compute. A message that is not \<^verbatim>\<open>null\<close> and whose
  \<^verbatim>\<open>msg_id\<close> no record matches is inserted without an error. In a flat payload the
  inserted record is outbound if and only if the sender is the string
  \<^verbatim>\<open>BUSINESS_NUMBER\<close> (the empty string when it is not set). In an envelope it is
  outbound if and only if the sender is strictly equal to the envelope's
  \<^verbatim>\<open>metadata.phone_number_id\<close> (the empty string when that is missing or falsy).
\<close>

lemma direction_of_ingested_message:
  assumes "\<not> nullish m"
    and "\<not> list_ex (\<lambda>d. eq_match (get_prop m ''id'') (msg_id d)) (docs s)"
  shows "fst (process_message_flat e s m) = None \<and>
         fst (process_message_nested e v s m) = None \<and>
         direction (last (docs (snd (process_message_flat e s m)))) =
           (if get_prop m ''from'' = JStr (case BUSINESS_NUMBER e of None \<Rightarrow> [] | Some b \<Rightarrow> b)
            then Outbound else Inbound) \<and>
         direction (last (docs (snd (process_message_nested e v s m)))) =
           (if strict_eq (get_prop m ''from'')
                 (if truthy (opt_prop (get_prop v ''metadata'') ''phone_number_id'')
                  then opt_prop (get_prop v ''metadata'') ''phone_number_id'' else JStr [])
            then Outbound else Inbound)"
proof -
  have flat: "process_message_flat e s m = (None, upsert_message e (doc_flat e m) s)"
    using assms(1) by (simp add: process_message_flat_def)
  have nested: "process_message_nested e v s m = (None, upsert_message e (doc_nested v m) s)"
    using assms(1) by (simp add: process_message_nested_def)
  have a: "direction (last (docs (upsert_message e (doc_flat e m) s))) =
           (if get_prop m ''from'' = JStr (case BUSINESS_NUMBER e of None \<Rightarrow> [] | Some b \<Rightarrow> b)
            then Outbound else Inbound)"
    using assms(2) by (simp add: docs_upsert_message_absent inserted_def doc_flat_def env_number_eq)
  have b: "direction (last (docs (upsert_message e (doc_nested v m) s))) =
           (if strict_eq (get_prop m ''from'')
                 (if truthy (opt_prop (get_prop v ''metadata'') ''phone_number_id'')
                  then opt_prop (get_prop v ''metadata'') ''phone_number_id'' else JStr [])
            then Outbound else Inbound)"
    using assms(2)
    by (simp add: docs_upsert_message_absent inserted_def doc_nested_def envelope_number_def js_or_def)
  show ?thesis
    unfolding flat nested using a b by simp
qed

text \<open>
  C2 says that in both shapes a message is outbound if and only if its sender is the
  configured \<^verbatim>\<open>BUSINESS_NUMBER\<close>. The envelope branch does not read that number. At a
  message whose sender is \<^verbatim>\<open>BUSINESS_NUMBER\<close>: ingested in a flat payload it is stored
  as outbound; ingested inside an envelope whose \<^verbatim>\<open>metadata.phone_number_id\<close> is another
  number it is stored as inbound.
\<close>

theorem envelope_direction_ignores_business_number:
  "get_prop ex_m_biz ''from'' = env_number ex_env \<and>
   map direction (docs (snd (process_payload ex_env empty_store ex_flat_biz))) = [Outbound] \<and>
   map direction (docs (snd (process_payload ex_env empty_store ex_nested_biz))) = [Inbound]"
  by code_simp

section \<open>Messages without a usable timestamp\<close>




section \<open>Rounds of the loops\<close>

lemma process_status_not_nullish:
  "\<not> nullish st \<Longrightarrow> process_status e s st = (None, apply_status e st s)"
  by (simp add: process_status_def)

lemma docs_apply_status [simp]:
  "docs (apply_status e st s) =
     update_first (or_query (status_key st)) (set_status (get_prop st ''status'') (now e s)) (docs s)"
  by (simp add: apply_status_def updateOne_status_def)





section \<open>A status that matches no record\<close>



section \<open>A status without an id\<close>

text \<open>
  C8. For a status item with neither \<^verbatim>\<open>id\<close> nor \<^verbatim>\<open>meta_msg_id\<close> the key is
  \<^verbatim>\<open>undefined\<close>, the query selects exactly the records whose \<^verbatim>\<open>msg_id\<close> or
  \<^verbatim>\<open>meta_msg_id\<close> is \<^verbatim>\<open>null\<close> (or an array that holds \<^verbatim>\<open>null\<close>), and the first such
  record of the collection gets the status of the item: the patch is not a no-op.
\<close>

theorem keyless_status_patch_hits_null_keyed_record:
  assumes "\<not> nullish st"
    and "get_prop st ''id'' = JUndefined"
    and "get_prop st ''meta_msg_id'' = JUndefined"
    and "docs s = pre @ d # post"
    and "\<not> list_ex (or_query (status_key st)) pre"
    and "msg_id d = JNull \<or> meta_msg_id d = JNull"
  shows "status_key st = JUndefined \<and>
         (\<forall>x. or_query (status_key st) x \<longleftrightarrow>
              msg_id x = JNull \<or> meta_msg_id x = JNull \<or>
              (\<exists>xs. JNull \<in> set xs \<and> (msg_id x = JArr xs \<or> meta_msg_id x = JArr xs))) \<and>
         fst (process_status e s st) = None \<and>
         docs (snd (process_status e s st)) =
           pre @ d\<lparr>status := to_bson (get_prop st ''status''), updatedAt := now e s\<rparr> # post"
proof -
  have k: "status_key st = JUndefined"
    using assms(2,3) by (simp add: status_key_def js_or_def)
  have q: "or_query (status_key st) x \<longleftrightarrow>
             msg_id x = JNull \<or> meta_msg_id x = JNull \<or>
             (\<exists>xs. JNull \<in> set xs \<and> (msg_id x = JArr xs \<or> meta_msg_id x = JArr xs))" for x
    unfolding k or_query_def eq_match_undefined by auto
  have "or_query (status_key st) d"
    using assms(6) by (auto simp: q)
  then have "docs (apply_status e st s) =
          pre @ set_status (get_prop st ''status'') (now e s) d # post"
    using assms(5) by (simp add: assms(4) update_first_at)
  then show ?thesis
    using assms(1) k q by (simp add: process_status_not_nullish set_status_def)
qed

text \<open>
  The theorem at the store that holds \<open>m1\<close> (which is no reply, so its \<^verbatim>\<open>meta_msg_id\<close>
  is \<^verbatim>\<open>null\<close>): a status with no id sets \<open>m1\<close> to \<open>read\<close>.
\<close>

theorem keyless_status_patch_hits_null_keyed_record_witness:
  "\<not> nullish ex_status_no_id \<and>
   get_prop ex_status_no_id ''id'' = JUndefined \<and>
   get_prop ex_status_no_id ''meta_msg_id'' = JUndefined \<and>
   docs store_m1 = [] @ hd (docs store_m1) # [] \<and>
   \<not> list_ex (or_query (status_key ex_status_no_id)) [] \<and>
   (msg_id (hd (docs store_m1)) = JNull \<or> meta_msg_id (hd (docs store_m1)) = JNull) \<and>
   msg_id (hd (docs store_m1)) = JStr ''m1'' \<and>
   status (hd (docs store_m1)) = JStr ''received'' \<and>
   map status (docs (snd (process_status ex_env store_m1 ex_status_no_id))) = [JStr ''read'']"
proof -
  have h1: "\<not> nullish ex_status_no_id"
    by (simp add: ex_status_no_id_def nullish_def)
  have h2: "get_prop ex_status_no_id ''id'' = JUndefined"
    by (simp add: ex_status_no_id_def)
  have h3: "get_prop ex_status_no_id ''meta_msg_id'' = JUndefined"
    by (simp add: ex_status_no_id_def)
  have h4: "docs store_m1 = [] @ hd (docs store_m1) # []"
    by code_simp
  have h5: "\<not> list_ex (or_query (status_key ex_status_no_id)) []"
    by simp
  have h6: "msg_id (hd (docs store_m1)) = JNull \<or> meta_msg_id (hd (docs store_m1)) = JNull"
    by code_simp
  have h7: "msg_id (hd (docs store_m1)) = JStr ''m1'' \<and> status (hd (docs store_m1)) = JStr ''received''"
    by code_simp
  have h8: "to_bson (get_prop ex_status_no_id ''status'') = JStr ''read''"
    by (simp add: ex_status_no_id_def)
  show ?thesis
    using keyless_status_patch_hits_null_keyed_record [OF h1 h2 h3 h4 h5 h6, of ex_env]
      h1 h2 h3 h4 h5 h6 h7 h8 by simp
qed

section \<open>The status value is not checked\<close>

text \<open>
  C10. No operation compares a status with the four values of the enumeration.
  \<^verbatim>\<open>POST /api/status\<close> with a truthy id and a truthy status \<open>v\<close> answers with success
  and writes \<open>v\<close> as it is into the first record the id selects; a status item of a
  payload writes its \<^verbatim>\<open>status\<close> (serialised) into that record. So when the value is
  outside the enumeration, the store holds a record whose status is outside it.
\<close>

theorem status_value_is_stored_verbatim:
  assumes "docs s = pre @ d # post"
    and "\<not> list_ex (or_query ident) pre"
    and "or_query ident d"
    and "truthy ident"
    and "truthy v"
    and "\<not> nullish st"
    and "status_key st = ident"
  shows "fst (update_status e ident v s) = Success \<and>
         docs (snd (update_status e ident v s)) = pre @ d\<lparr>status := v, updatedAt := now e s\<rparr> # post \<and>
         fst (process_status e s st) = None \<and>
         docs (snd (process_status e s st)) =
           pre @ d\<lparr>status := to_bson (get_prop st ''status''), updatedAt := now e s\<rparr> # post \<and>
         (status_enum v \<or>
          list_ex (\<lambda>x. \<not> status_enum (status x)) (docs (snd (update_status e ident v s)))) \<and>
         (status_enum (to_bson (get_prop st ''status'')) \<or>
          list_ex (\<lambda>x. \<not> status_enum (status x)) (docs (snd (process_status e s st))))"
proof -
  have m: "list_ex (or_query ident) (docs s)"
    using assms(1,3) by simp
  have u: "updateOne_status ident x t (docs s) = pre @ d\<lparr>status := to_bson x, updatedAt := t\<rparr> # post" for t x
    using assms(2,3)
    by (simp add: updateOne_status_def assms(1) update_first_at set_status_def)
  have a: "update_status e ident v s =
             (Success, (ticked s)\<lparr>docs := pre @ d\<lparr>status := v, updatedAt := now e s\<rparr> # post\<rparr>)"
    using assms(4,5) m by (simp add: update_status_def u to_bson_truthy)
  have b: "process_status e s st =
             (None, (ticked s)\<lparr>docs := pre @ d\<lparr>status := to_bson (get_prop st ''status''),
                                                  updatedAt := now e s\<rparr> # post\<rparr>)"
    using assms(6) by (simp add: process_status_not_nullish apply_status_def assms(7) u)
  show ?thesis
    unfolding a b by simp
qed

text \<open>The theorem at the store that holds \<open>m1\<close> and the status \<open>bogus\<close>.\<close>

theorem status_value_is_stored_verbatim_witness:
  "docs store_m1 = [] @ hd (docs store_m1) # [] \<and>
   \<not> list_ex (or_query (JStr ''m1'')) [] \<and>
   or_query (JStr ''m1'') (hd (docs store_m1)) \<and>
   truthy (JStr ''m1'') \<and> truthy (JStr ''bogus'') \<and>
   \<not> nullish ex_status_bogus \<and>
   status_key ex_status_bogus = JStr ''m1'' \<and>
   \<not> status_enum (JStr ''bogus'') \<and>
   fst (update_status ex_env (JStr ''m1'') (JStr ''bogus'') store_m1) = Success \<and>
   list_ex (\<lambda>x. \<not> status_enum (status x))
     (docs (snd (update_status ex_env (JStr ''m1'') (JStr ''bogus'') store_m1))) \<and>
   list_ex (\<lambda>x. \<not> status_enum (status x)) (docs (snd (process_status ex_env store_m1 ex_status_bogus)))"
proof -
  have h1: "docs store_m1 = [] @ hd (docs store_m1) # []"
    by code_simp
  have h2: "\<not> list_ex (or_query (JStr ''m1'')) []"
    by simp
  have h3: "or_query (JStr ''m1'') (hd (docs store_m1))"
    by code_simp
  have h4: "truthy (JStr ''m1'')" and h5: "truthy (JStr ''bogus'')"
    by simp_all
  have h6: "\<not> nullish ex_status_bogus"
    by (simp add: ex_status_bogus_def nullish_def)
  have h7: "status_key ex_status_bogus = JStr ''m1''"
    by (simp add: ex_status_bogus_def status_key_def js_or_def)
  have h8: "get_prop ex_status_bogus ''status'' = JStr ''bogus''"
    by (simp add: ex_status_bogus_def)
  have h9: "\<not> status_enum (JStr ''bogus'')"
    by (simp add: status_enum_def)
  show ?thesis
    using status_value_is_stored_verbatim [OF h1 h2 h3 h4 h5 h6 h7, of ex_env]
      h1 h2 h3 h4 h5 h6 h7 h8 h9 by simp
qed

section \<open>Events of the change stream\<close>

text \<open>
  C6, as stated, fails on an update of a record that has no \<^verbatim>\<open>msg_id\<close>: the event
  carries the record's \<^verbatim>\<open>meta_msg_id\<close> in the place of the message id. And a change that
  is neither an insert, an update nor a replace gives no event.
\<close>

theorem status_event_id_counterexample:
  "on_change \<lparr>operationType = ''update'', fullDocument = Some ex_doc_no_id\<rparr> =
     Inr [Message_status (JStr ''111'') (Field (JStr ''ctx1'')) (JStr ''read'') ex_doc_no_id] \<and>
   msg_id ex_doc_no_id = JNull \<and>
   on_change \<lparr>operationType = ''delete'', fullDocument = None\<rparr> = Inr []"
  by (simp add: on_change_def event_msg_id_def ex_doc_no_id_def js_or_def)

text \<open>
  C6 (amended). A change that carries its full document gives exactly one event when it
  is an insert (\<^verbatim>\<open>new_message\<close> with the record's \<^verbatim>\<open>wa_id\<close> and the record) and when it
  is an update or a replace (\<^verbatim>\<open>message_status\<close> with the record's \<^verbatim>\<open>wa_id\<close>, the
  record's \<^verbatim>\<open>msg_id\<close> or, when that is falsy, its \<^verbatim>\<open>meta_msg_id\<close> or, when that is
  falsy too, its \<^verbatim>\<open>_id\<close>, the record's status or \<^verbatim>\<open>null\<close> when it is falsy, and the
  record). A change of any other type gives no event.
\<close>

theorem change_feed_events:
  "(operationType c = ''insert'' \<and> fullDocument c = Some d \<longrightarrow>
      on_change c = Inr [New_message (wa_id d) d]) \<and>
   ((operationType c = ''update'' \<or> operationType c = ''replace'') \<and> fullDocument c = Some d \<longrightarrow>
      on_change c =
        Inr [Message_status (wa_id d)
               (if truthy (msg_id d) then Field (msg_id d)
                else if truthy (meta_msg_id d) then Field (meta_msg_id d)
                else ObjectId (doc_id d))
               (if truthy (status d) then status d else JNull) d]) \<and>
   (operationType c \<notin> {''insert'', ''update'', ''replace''} \<longrightarrow> on_change c = Inr [])"
  by (simp add: on_change_def event_msg_id_def js_or_def)

text \<open>The theorem at an insert and an update of \<open>m1\<close> and at a delete.\<close>

theorem change_feed_events_witness:
  "on_change \<lparr>operationType = ''insert'', fullDocument = Some (hd (docs store_m1))\<rparr> =
     Inr [New_message (JStr ''111'') (hd (docs store_m1))] \<and>
   on_change \<lparr>operationType = ''update'', fullDocument = Some (hd (docs store_m1))\<rparr> =
     Inr [Message_status (JStr ''111'') (Field (JStr ''m1'')) (JStr ''received'') (hd (docs store_m1))] \<and>
   on_change \<lparr>operationType = ''delete'', fullDocument = None\<rparr> = Inr []"
proof -
  have d: "wa_id (hd (docs store_m1)) = JStr ''111'' \<and> msg_id (hd (docs store_m1)) = JStr ''m1'' \<and>
           status (hd (docs store_m1)) = JStr ''received''"
    by code_simp
  show ?thesis
    using change_feed_events [of "\<lparr>operationType = ''insert'', fullDocument = Some (hd (docs store_m1))\<rparr>" "hd (docs store_m1)"]
      change_feed_events [of "\<lparr>operationType = ''update'', fullDocument = Some (hd (docs store_m1))\<rparr>" "hd (docs store_m1)"]
      change_feed_events [of "\<lparr>operationType = ''delete'', fullDocument = None\<rparr>" "hd (docs store_m1)"]
      d by simp
qed


section \<open>Reading a conversation\<close>

lemma chat_id_group_summary [simp]: "chat_id (group_summary k g) = k"
  by (simp add: group_summary_def split: list.splits)

lemma unreadCount_group_summary [simp]: "unreadCount (group_summary k g) = length (filter is_unread g)"
  by (simp add: group_summary_def split: list.splits)

lemma set_sort_desc [simp]: "set (sort_desc key xs) = set xs"
  by (simp add: sort_desc_def)

lemma chat_in_list_conversations:
  "c \<in> set (list_conversations ds) \<longleftrightarrow>
     (\<exists>k \<in> wa_id ` set ds.
        c = group_summary k (filter (\<lambda>d. wa_id d = k) (sort_desc (\<lambda>d. date_key (timestamp d)) ds)))"
  by (auto simp: list_conversations_def Let_def)

lemma unread_of_chat:
  assumes "c \<in> set (list_conversations ds)"
  shows "unreadCount c = length (filter (\<lambda>d. wa_id d = chat_id c \<and> is_unread d) ds)"
proof -
  from assms obtain k where
    c: "c = group_summary k (filter (\<lambda>d. wa_id d = k) (sort_desc (\<lambda>d. date_key (timestamp d)) ds))"
    by (auto simp: chat_in_list_conversations)
  have "length (filter P (sort_desc key ds)) = length (filter P ds)" for P and key :: "doc \<Rightarrow> int"
    by (simp add: sort_desc_def filter_sort)
  then show ?thesis
    by (simp add: c conj_commute)
qed







section \<open>Fields written at creation only\<close>

lemma keeps_refl [simp]: "keeps_creation_fields s s"
  by (simp add: keeps_creation_fields_def)

lemma keeps_docs_eq:
  "map creation_fields (docs s') = map creation_fields (docs s) \<Longrightarrow> keeps_creation_fields s s'"
  by (simp add: keeps_creation_fields_def)

lemma keeps_trans:
  assumes "keeps_creation_fields s s'" and "keeps_creation_fields s' s''"
  shows "keeps_creation_fields s s''"
proof -
  let ?n = "length (docs s)" and ?n' = "length (docs s')"
  have 1: "take ?n (map creation_fields (docs s')) = map creation_fields (docs s)"
    using assms(1) by (simp add: keeps_creation_fields_def)
  have 2: "take ?n' (map creation_fields (docs s'')) = map creation_fields (docs s')"
    using assms(2) by (simp add: keeps_creation_fields_def)
  have "length (take ?n (map creation_fields (docs s'))) = ?n"
    using 1 by simp
  then have le: "?n \<le> ?n'"
    by simp
  have "take ?n (map creation_fields (docs s'')) = take ?n (take ?n' (map creation_fields (docs s'')))"
    using le by (simp add: min_def)
  also have "\<dots> = map creation_fields (docs s)"
    using 1 2 by simp
  finally show ?thesis
    by (simp add: keeps_creation_fields_def)
qed

lemma keeps_ticked [simp]: "keeps_creation_fields s (ticked s)"
  by (simp add: keeps_docs_eq)

lemma creation_fields_update_first:
  "(\<And>d. creation_fields (f d) = creation_fields d) \<Longrightarrow>
     map creation_fields (update_first p f ds) = map creation_fields ds"
  by (induction ds) auto

lemma keeps_upsert_by_msg_id: "keeps_creation_fields s (upsert_by_msg_id md upd s)"
  by (simp add: upsert_by_msg_id_def keeps_creation_fields_def creation_fields_update_first
      creation_fields_def)

lemma keeps_upsert_message: "keeps_creation_fields s (upsert_message e mk s)"
proof -
  have "keeps_creation_fields (ticked (ticked s)) (upsert_message e mk s)"
    unfolding upsert_message_def by (rule keeps_upsert_by_msg_id)
  moreover have "keeps_creation_fields s (ticked (ticked s))"
    by (simp add: keeps_docs_eq)
  ultimately show ?thesis
    by (rule keeps_trans [rotated])
qed

lemma keeps_apply_status: "keeps_creation_fields s (apply_status e st s)"
  by (rule keeps_docs_eq)
    (simp add: creation_fields_update_first set_status_def creation_fields_def)

lemma keeps_update_status: "keeps_creation_fields s (snd (update_status e ident v s))"
  by (simp add: update_status_def keeps_docs_eq updateOne_status_def creation_fields_update_first
      set_status_def creation_fields_def)

lemma creation_fields_mark_read:
  "map creation_fields (mark_read w upd ds) = map creation_fields ds"
  by (induction ds) (auto simp: mark_read_def creation_fields_def)

lemma keeps_get_conversation_messages:
  "keeps_creation_fields s (snd (get_conversation_messages e w s))"
  by (simp add: get_conversation_messages_def keeps_docs_eq creation_fields_mark_read)

lemma keeps_for_each:
  assumes "\<And>s x. keeps_creation_fields s (snd (f s x))"
  shows "keeps_creation_fields s (snd (for_each f xs s))"
proof (induction xs arbitrary: s)
  case Nil
  then show ?case by simp
next
  case (Cons x xs)
  show ?case
  proof (cases "f s x")
    case (Pair r s')
    have k: "keeps_creation_fields s s'"
      using assms [of s x] Pair by simp
    show ?thesis
    proof (cases r)
      case None
      then show ?thesis
        using Pair k Cons.IH [of s'] by (simp add: keeps_trans)
    next
      case (Some err)
      then show ?thesis
        using Pair k by simp
    qed
  qed
qed

lemma keeps_and_then:
  assumes "keeps_creation_fields s (snd r)"
    and "\<And>s1. keeps_creation_fields s1 (snd (f s1))"
  shows "keeps_creation_fields s (snd (and_then r f))"
proof (cases r)
  case (Pair x s1)
  then show ?thesis
    using assms(1) assms(2) [of s1] by (cases x) (auto simp: and_then_def intro: keeps_trans)
qed

lemma keeps_process_status: "keeps_creation_fields s (snd (process_status e s st))"
  by (simp add: process_status_def keeps_apply_status)

lemma keeps_process_message_flat: "keeps_creation_fields s (snd (process_message_flat e s m))"
  by (simp add: process_message_flat_def keeps_upsert_message)

lemma keeps_process_message_nested: "keeps_creation_fields s (snd (process_message_nested e v s m))"
  by (simp add: process_message_nested_def keeps_upsert_message)

lemma keeps_status_loop:
  "keeps_creation_fields s (snd (case x of JArr ss \<Rightarrow> for_each (process_status e) ss s | _ \<Rightarrow> (None, s)))"
  by (cases x) (simp_all add: keeps_for_each keeps_process_status)

lemma keeps_process_change: "keeps_creation_fields s (snd (process_change e s change))"
proof -
  have "keeps_creation_fields s
          (snd (case x of JArr ms \<Rightarrow> for_each (process_message_nested e v) ms s | _ \<Rightarrow> (None, s)))" for x v
    by (cases x) (simp_all add: keeps_for_each keeps_process_message_nested)
  then show ?thesis
    by (simp add: process_change_def Let_def keeps_and_then keeps_status_loop)
qed

lemma keeps_process_entry: "keeps_creation_fields s (snd (process_entry e s entry))"
  by (simp add: process_entry_def keeps_for_each keeps_process_change split: option.splits)

lemma keeps_process_flat: "keeps_creation_fields s (snd (process_flat e s payload))"
proof -
  have "keeps_creation_fields s
          (snd (case x of JArr ms \<Rightarrow> for_each (process_message_flat e) ms s | _ \<Rightarrow> (None, s)))" for x
    by (cases x) (simp_all add: keeps_for_each keeps_process_message_flat)
  then show ?thesis
    by (simp add: process_flat_def keeps_and_then keeps_status_loop)
qed

lemma keeps_process_payload: "keeps_creation_fields s (snd (process_payload e s payload))"
  by (simp add: process_payload_def keeps_for_each keeps_process_entry keeps_process_flat
      split: jsval.splits)

lemma keeps_process_file: "keeps_creation_fields s (snd (process_file e s f))"
  by (simp add: process_file_def keeps_for_each keeps_process_payload
      split: payload_file.splits jsval.splits)

lemma keeps_run: "keeps_creation_fields s (snd (run e files s))"
  by (simp add: run_def keeps_for_each keeps_process_file)

lemma keeps_nth:
  assumes "keeps_creation_fields s s'" and "i < length (docs s)"
  shows "i < length (docs s') \<and> creation_fields (docs s' ! i) = creation_fields (docs s ! i)"
proof -
  have 1: "take (length (docs s)) (map creation_fields (docs s')) = map creation_fields (docs s)"
    using assms(1) by (simp add: keeps_creation_fields_def)
  have "length (take (length (docs s)) (map creation_fields (docs s'))) = length (docs s)"
    using 1 by simp
  then have le: "length (docs s) \<le> length (docs s')"
    by simp
  have "take (length (docs s)) (map creation_fields (docs s')) ! i = map creation_fields (docs s) ! i"
    using 1 by simp
  then show ?thesis
    using le assms(2) by simp
qed

lemma creation_fields_eq_iff:
  "creation_fields d' = creation_fields d \<longleftrightarrow> d' = d\<lparr>status := status d', updatedAt := updatedAt d'\<rparr>"
  by (cases d; cases d') (auto simp: creation_fields_def)

lemma keeps_nth_fields:
  assumes "keeps_creation_fields s s'" and "i < length (docs s)"
  shows "i < length (docs s') \<and>
         wa_id (docs s' ! i) = wa_id (docs s ! i) \<and>
         docs s' ! i = (docs s ! i)\<lparr>status := status (docs s' ! i), updatedAt := updatedAt (docs s' ! i)\<rparr>"
proof (intro conjI)
  have c: "creation_fields (docs s' ! i) = creation_fields (docs s ! i)"
    using keeps_nth [OF assms] by (rule conjunct2)
  show "i < length (docs s')"
    using keeps_nth [OF assms] by (rule conjunct1)
  have "wa_id (creation_fields (docs s' ! i)) = wa_id (creation_fields (docs s ! i))"
    by (simp only: c)
  then show "wa_id (docs s' ! i) = wa_id (docs s ! i)"
    by (simp add: creation_fields_def)
  show "docs s' ! i = (docs s ! i)\<lparr>status := status (docs s' ! i), updatedAt := updatedAt (docs s' ! i)\<rparr>"
    using c by (rule creation_fields_eq_iff [THEN iffD1])
qed

text \<open>
  C7. The upsert of a message, a status patch of a payload, \<^verbatim>\<open>POST /api/status\<close>, the
  read-marking of \<^verbatim>\<open>GET /api/messages/:wa_id\<close>, and with them the ingest of a whole
  payload and of a list of files, keep every record of the store in its place with all
  its fields but \<^verbatim>\<open>status\<close> and \<^verbatim>\<open>updatedAt\<close>; in particular the record's
  \<^verbatim>\<open>wa_id\<close> is the one it was created with.
\<close>

theorem creation_fields_never_change:
  "keeps_creation_fields s (upsert_message e mk s) \<and>
   keeps_creation_fields s (apply_status e st s) \<and>
   keeps_creation_fields s (snd (update_status e ident v s)) \<and>
   keeps_creation_fields s (snd (get_conversation_messages e w s)) \<and>
   keeps_creation_fields s (snd (process_payload e s payload)) \<and>
   keeps_creation_fields s (snd (run e files s)) \<and>
   (\<forall>s'. keeps_creation_fields s s' \<longrightarrow>
      (\<forall>i < length (docs s).
         i < length (docs s') \<and>
         wa_id (docs s' ! i) = wa_id (docs s ! i) \<and>
         docs s' ! i = (docs s ! i)\<lparr>status := status (docs s' ! i), updatedAt := updatedAt (docs s' ! i)\<rparr>))"
  by (intro conjI allI impI keeps_upsert_message keeps_apply_status keeps_update_status
      keeps_get_conversation_messages keeps_process_payload keeps_run)
    (rule keeps_nth_fields [THEN conjunct1], assumption, assumption,
     rule keeps_nth_fields [THEN conjunct2, THEN conjunct1], assumption, assumption,
     rule keeps_nth_fields [THEN conjunct2, THEN conjunct2], assumption, assumption)

text \<open>The theorem at the store that holds \<open>m1\<close> and the status \<open>read\<close> of \<open>m1\<close>.\<close>

theorem creation_fields_never_change_witness:
  "keeps_creation_fields store_m1 (apply_status ex_env ex_status_read_m1 store_m1) \<and>
   0 < length (docs store_m1) \<and>
   status (docs store_m1 ! 0) = JStr ''received'' \<and>
   status (docs (apply_status ex_env ex_status_read_m1 store_m1) ! 0) = JStr ''read'' \<and>
   wa_id (docs (apply_status ex_env ex_status_read_m1 store_m1) ! 0) = wa_id (docs store_m1 ! 0)"
proof -
  note t = creation_fields_never_change
      [of store_m1 ex_env "doc_flat ex_env ex_m1" ex_status_read_m1 JNull JNull "[]" JNull "[]"]
  have k: "keeps_creation_fields store_m1 (apply_status ex_env ex_status_read_m1 store_m1)"
    using t by (rule conjunct2 [THEN conjunct1])
  have h0: "0 < length (docs store_m1)"
    by code_simp
  have h1: "status (docs store_m1 ! 0) = JStr ''received''"
    by code_simp
  have h2: "status (docs (apply_status ex_env ex_status_read_m1 store_m1) ! 0) = JStr ''read''"
    by code_simp
  have "wa_id (docs (apply_status ex_env ex_status_read_m1 store_m1) ! 0) = wa_id (docs store_m1 ! 0)"
    using t k h0 by blast
  then show ?thesis
    using k h0 h1 h2 by blast
qed


section \<open>Ingesting a payload twice\<close>

subsection \<open>Status patches on a collection\<close>

lemma or_query_set_status [simp]: "or_query k (set_status v u d) = or_query k d"
  by (simp add: or_query_def set_status_def)

lemma set_status_twice [simp]: "set_status v u (set_status w u' d) = set_status v u d"
  by (simp add: set_status_def)





subsection \<open>The status loop, up to \<^verbatim>\<open>updatedAt\<close>\<close>


lemma or_query_content [simp]: "or_query k (content d) = or_query k d"
  by (simp add: or_query_def content_def)




subsection \<open>The message loop\<close>



lemma msg_id_content [simp]: "msg_id (content d) = msg_id d"
  by (simp add: content_def)















subsection \<open>Messages, then statuses, twice\<close>







subsection \<open>One record for each \<^verbatim>\<open>msg_id\<close>\<close>


lemma unique_ticked [simp]: "unique_msg_ids (ticked s) = unique_msg_ids s"
  by (simp add: unique_msg_ids_def)












subsection \<open>Once and twice\<close>




section \<open>The list of conversations\<close>

lemma sorted_group_head:
  assumes "sorted (map f (d # g))" and "x \<in> set (d # g)"
  shows "f d \<le> f x"
  using assms by auto

lemma group_sorted:
  "sorted (map (\<lambda>d. - date_key (timestamp d))
     (filter P (sort_desc (\<lambda>d. date_key (timestamp d)) ds)))"
  unfolding sort_desc_def by (rule sorted_filter) (rule sorted_sort_key)

text \<open>
  What the pipeline does give: one summary for each \<^verbatim>\<open>wa_id\<close> of the collection; its
  name, text and time are those of one record of the conversation, and no record of the
  conversation has a later \<^verbatim>\<open>timestamp\<close>; its unread count is the number of inbound
  records of the conversation that are not \<open>read\<close>; the summaries are in descending
  order of their time.
\<close>

lemma list_conversations_summary:
  "distinct (map chat_id (list_conversations ds)) \<and>
   set (map chat_id (list_conversations ds)) = wa_id ` set ds \<and>
   (\<forall>c \<in> set (list_conversations ds).
      \<exists>d \<in> set ds.
        wa_id d = chat_id c \<and> chat_wa_id c = wa_id d \<and> name c = doc_from d \<and>
        lastMessage c = doc_text d \<and> lastTimestamp c = timestamp d \<and>
        (\<forall>d' \<in> set ds. wa_id d' = chat_id c \<longrightarrow>
           date_key (timestamp d') \<le> date_key (timestamp d))) \<and>
   (\<forall>c \<in> set (list_conversations ds).
      unreadCount c = length (filter (\<lambda>d. wa_id d = chat_id c \<and> is_unread d) ds)) \<and>
   sorted (map (\<lambda>c. - date_key (lastTimestamp c)) (list_conversations ds))"
proof (intro conjI ballI)
  let ?sorted = "sort_desc (\<lambda>d. date_key (timestamp d)) ds"
  let ?groups = "map (\<lambda>k. group_summary k (filter (\<lambda>d. wa_id d = k) ?sorted)) (remdups (map wa_id ?sorted))"
  have ids: "map chat_id ?groups = remdups (map wa_id ?sorted)"
    by (simp add: comp_def)
  have dg: "distinct (map chat_id ?groups)"
    unfolding ids by simp
  then have "distinct ?groups" and "inj_on chat_id (set ?groups)"
    by (simp_all only: distinct_map)
  then have "distinct (sort_desc (\<lambda>c. date_key (lastTimestamp c)) ?groups)"
    and "inj_on chat_id (set (sort_desc (\<lambda>c. date_key (lastTimestamp c)) ?groups))"
    by (simp_all add: sort_desc_def)
  then show "distinct (map chat_id (list_conversations ds))"
    unfolding list_conversations_def Let_def by (simp only: distinct_map)
  have lc: "list_conversations ds = sort_desc (\<lambda>c. date_key (lastTimestamp c)) ?groups"
    by (simp add: list_conversations_def Let_def)
  have "set (map chat_id (list_conversations ds)) = set (map chat_id ?groups)"
    unfolding lc by (simp only: set_map set_sort_desc)
  also have "\<dots> = set (remdups (map wa_id ?sorted))"
    by (simp only: ids)
  also have "\<dots> = wa_id ` set ds"
    by simp
  finally show "set (map chat_id (list_conversations ds)) = wa_id ` set ds" .
  show "sorted (map (\<lambda>c. - date_key (lastTimestamp c)) (list_conversations ds))"
    by (simp add: list_conversations_def Let_def sort_desc_def)
next
  fix c
  assume c: "c \<in> set (list_conversations ds)"
  then show "unreadCount c = length (filter (\<lambda>d. wa_id d = chat_id c \<and> is_unread d) ds)"
    by (rule unread_of_chat)
  from c obtain k where k: "k \<in> wa_id ` set ds"
    and cg: "c = group_summary k (filter (\<lambda>d. wa_id d = k) (sort_desc (\<lambda>d. date_key (timestamp d)) ds))"
    by (auto simp: chat_in_list_conversations)
  let ?g = "filter (\<lambda>d. wa_id d = k) (sort_desc (\<lambda>d. date_key (timestamp d)) ds)"
  have mem: "x \<in> set ?g \<longleftrightarrow> x \<in> set ds \<and> wa_id x = k" for x
    by simp
  from k obtain d0 where "d0 \<in> set ds" and "wa_id d0 = k"
    by auto
  then have "d0 \<in> set ?g"
    by (simp only: mem)
  then obtain d g where g: "?g = d # g"
    by (cases ?g) auto
  have "d \<in> set ?g"
    by (simp only: g list.set_intros)
  then have d: "d \<in> set ds" "wa_id d = k"
    by (simp_all only: mem)
  have fields: "chat_id c = k \<and> chat_wa_id c = wa_id d \<and> name c = doc_from d \<and>
                lastMessage c = doc_text d \<and> lastTimestamp c = timestamp d"
    unfolding cg g by (simp add: group_summary_def)
  have newest: "date_key (timestamp d') \<le> date_key (timestamp d)" if "d' \<in> set ds" "wa_id d' = k" for d'
  proof -
    have "d' \<in> set ?g"
      using that by (simp only: mem)
    then have "d' \<in> set (d # g)"
      by (simp only: g)
    moreover have "sorted (map (\<lambda>d. - date_key (timestamp d)) (d # g))"
      using group_sorted [of "\<lambda>d. wa_id d = k" ds] g by simp
    ultimately have "- date_key (timestamp d) \<le> - date_key (timestamp d')"
      by (rule sorted_group_head [rotated])
    then show ?thesis
      by simp
  qed
  show "\<exists>d \<in> set ds.
        wa_id d = chat_id c \<and> chat_wa_id c = wa_id d \<and> name c = doc_from d \<and>
        lastMessage c = doc_text d \<and> lastTimestamp c = timestamp d \<and>
        (\<forall>d' \<in> set ds. wa_id d' = chat_id c \<longrightarrow>
           date_key (timestamp d') \<le> date_key (timestamp d))"
    using d fields newest by (intro bexI [of _ d]) auto
qed

text \<open>
  C5 says that the summary of a conversation is taken from its most recent record, where
  records with the same \<^verbatim>\<open>timestamp\<close> are told apart by the most recent
  \<^verbatim>\<open>createdAt\<close>. The pipeline sorts by \<^verbatim>\<open>timestamp\<close> only. At two messages of one
  conversation with the same \<^verbatim>\<open>timestamp\<close>, the second was created after the first and
  is the last one that \<^verbatim>\<open>GET /api/messages/:wa_id\<close> lists, and the conversation's
  \<^verbatim>\<open>lastMessage\<close> is the text of the first.
\<close>

theorem chat_preview_ignores_createdAt:
  "map timestamp (docs (snd (process_payload ex_env empty_store ex_same_second))) =
     [Date_ms 1000000, Date_ms 1000000] \<and>
   map createdAt (docs (snd (process_payload ex_env empty_store ex_same_second))) =
     [Date_ms 5000, Date_ms 5002] \<and>
   map doc_text (docs (snd (process_payload ex_env empty_store ex_same_second))) =
     [JStr ''first'', JStr ''second''] \<and>
   map doc_text (find_by_wa_id ''111'' (docs (snd (process_payload ex_env empty_store ex_same_second)))) =
     [JStr ''first'', JStr ''second''] \<and>
   map lastMessage (list_conversations (docs (snd (process_payload ex_env empty_store ex_same_second)))) =
     [JStr ''first'']"
  by code_simp


end
